theory Spec2Isabelle
  imports Complex_Main "HOL-Library.AList" "HOL-Library.Multiset"
begin

section \<open>Road network construction (modules/roadnetworkgenerator.py)\<close>

text \<open>
  Nodes are pairs of Python integers. Unit vectors are produced by a floating-point
  division (\<^verbatim>\<open>vector / norm\<close>); they are modelled as pairs of reals, so that the
  division is exact. Python dictionaries keep insertion order; a dictionary is modelled as
  an association list in insertion order, read with \<^const>\<open>map_of\<close> and written with
  \<^const>\<open>AList.update\<close> (which overwrites an existing key in place and appends a new
  key at the end).
\<close>

type_synonym Node = "int \<times> int"
type_synonym Unit_Vector = "real \<times> real"
type_synonym Segment = "Node \<times> Node"
type_synonym Graph = "(Node \<times> (Unit_Vector \<times> Node) list) list"

text \<open>One constructor for each place where the source raises.\<close>

datatype error =
    NoDirection          \<comment> \<open>ValueError: Segments with no direction are disallowed\<close>
  | Diagonal             \<comment> \<open>ValueError: Diagonal segments are disallowed\<close>
  | DuplicateEdge        \<comment> \<open>ValueError: Attempting to add an already existing direction\<close>
  | KeyError             \<comment> \<open>subscript of a dictionary with a missing key\<close>
  | NoEntryGate          \<comment> \<open>ValueError: At least one entry gate must be defined\<close>
  | NoExitGate           \<comment> \<open>ValueError: At least one exit gate must be defined\<close>
  | InvalidSegment       \<comment> \<open>ValueError: diagonal segment or null vector (in sort by direction)\<close>
  | Overlap              \<comment> \<open>ValueError: lines overlap\<close>
  | Crossing             \<comment> \<open>ValueError: Intersection detected\<close>
  | NodeOnSegment        \<comment> \<open>ValueError: starting or ending node on a segment\<close>
  | NotConnected         \<comment> \<open>ValueError: All roads are not connected\<close>
  | NoExit               \<comment> \<open>ValueError: intersection has no exit\<close>
  | NoEntrance           \<comment> \<open>ValueError: intersection has no entrance\<close>
  | Unreachable          \<comment> \<open>RuntimeError: Not all nodes are reachable from an entry gate\<close>
  | IndexError           \<comment> \<open>popleft on an empty deque\<close>
  | AttributeError       \<comment> \<open>method call on None\<close>
  | BadProbability       \<comment> \<open>ValueError: Probability must be between 0 and 1\<close>
  | BadClearance         \<comment> \<open>ValueError: clearance out of range\<close>
  | RoadTooShort         \<comment> \<open>ValueError: road not longer than the clearance\<close>
  | BadRoads             \<comment> \<open>ValueError: Roads must be 2x clearance in length\<close>

record network =
  outgoing :: Graph
  incoming :: "(Node \<times> Node list) list"
  entry_gates :: "Node list"
  exit_gates :: "Node list"

definition empty_network :: network where
  "empty_network = \<lparr>outgoing = [], incoming = [], entry_gates = [], exit_gates = []\<rparr>"

text \<open>\<^verbatim>\<open>np.linalg.norm\<close> of a vector of two components.\<close>

definition norm2 :: "real \<times> real \<Rightarrow> real" where
  "norm2 v = sqrt ((fst v)\<^sup>2 + (snd v)\<^sup>2)"

text \<open>\<^verbatim>\<open>d.get(k, [])\<close>; also \<^verbatim>\<open>d[k]\<close> where \<^verbatim>\<open>k\<close> ranges over the keys of \<^verbatim>\<open>d\<close>.\<close>

definition get_or_empty :: "('k \<times> 'v list) list \<Rightarrow> 'k \<Rightarrow> 'v list" where
  "get_or_empty d k = (case map_of d k of None \<Rightarrow> [] | Some vs \<Rightarrow> vs)"

definition keys :: "('k \<times> 'v) list \<Rightarrow> 'k list" where
  "keys d = map fst d"

text \<open>
  \<^verbatim>\<open>get_unit_vector\<close>. A segment is a pair of nodes, so the test \<^verbatim>\<open>not segment\<close>
  (an empty tuple) has no counterpart.
\<close>

definition get_unit_vector :: "Segment \<Rightarrow> error + Unit_Vector" where
  "get_unit_vector segment =
     (case segment of ((x1, y1), (x2, y2)) \<Rightarrow>
        let vector = (real_of_int (x2 - x1), real_of_int (y2 - y1));
            norm = norm2 vector
        in if norm = 0 then Inl NoDirection
           else if x1 \<noteq> x2 \<and> y1 \<noteq> y2 then Inl Diagonal
           else Inr (fst vector / norm, snd vector / norm))"

definition ensure_node_in_network :: "network \<Rightarrow> Node \<Rightarrow> network" where
  "ensure_node_in_network net node =
     (let net1 = (if map_of (outgoing net) node = None
                  then net\<lparr>outgoing := AList.update node [] (outgoing net)\<rparr> else net)
      in if map_of (incoming net1) node = None
         then net1\<lparr>incoming := AList.update node [] (incoming net1)\<rparr> else net1)"

text \<open>\<^verbatim>\<open>_ensure_asymmetric_road\<close>: \<open>None\<close> when the check passes.\<close>

definition ensure_asymmetric_road ::
    "network \<Rightarrow> Node \<Rightarrow> Node \<Rightarrow> Unit_Vector \<Rightarrow> error option" where
  "ensure_asymmetric_road net startnode endnode direction =
     (let inverse_direction = (- fst direction, - snd direction)
      in case map_of (outgoing net) startnode of
           None \<Rightarrow> Some KeyError
         | Some out_start \<Rightarrow>
             if list_ex (\<lambda>edge. direction = fst edge) out_start then Some DuplicateEdge
             else (case map_of (outgoing net) endnode of
                     None \<Rightarrow> Some KeyError
                   | Some out_end \<Rightarrow>
                       if list_ex (\<lambda>edge. inverse_direction = fst edge) out_end
                       then Some DuplicateEdge else None))"

text \<open>\<^verbatim>\<open>d[k].append(x)\<close>\<close>

definition dict_append :: "('k \<times> 'v list) list \<Rightarrow> 'k \<Rightarrow> 'v \<Rightarrow> error + ('k \<times> 'v list) list" where
  "dict_append d k x =
     (case map_of d k of
        None \<Rightarrow> Inl KeyError
      | Some vs \<Rightarrow> Inr (AList.update k (vs @ [x]) d))"

text \<open>
  \<^verbatim>\<open>_add_segment\<close> mutates the network and may raise after it has done so. The model
  returns the raised error (if any) together with the network as the call leaves it.
\<close>

definition add_segment :: "network \<Rightarrow> Segment \<Rightarrow> error option \<times> network" where
  "add_segment net segment =
     (case get_unit_vector segment of
        Inl e \<Rightarrow> (Some e, net)
      | Inr direction \<Rightarrow>
          (let startnode = fst segment; endnode = snd segment;
               net1 = ensure_node_in_network net startnode;
               net2 = ensure_node_in_network net1 endnode
           in (case ensure_asymmetric_road net2 startnode endnode direction of
                 Some e \<Rightarrow> (Some e, net2)
               | None \<Rightarrow>
                   (case dict_append (outgoing net2) startnode (direction, endnode) of
                      Inl e \<Rightarrow> (Some e, net2)
                    | Inr out' \<Rightarrow>
                        (let net3 = net2\<lparr>outgoing := out'\<rparr>
                         in (case dict_append (incoming net3) endnode startnode of
                               Inl e \<Rightarrow> (Some e, net3)
                             | Inr in' \<Rightarrow> (None, net3\<lparr>incoming := in'\<rparr>)))))))"

text \<open>\<^verbatim>\<open>CustomRoadNetwork._generate_roads\<close>: the loop stops at the first exception.\<close>

fun generate_roads :: "network \<Rightarrow> Segment list \<Rightarrow> error option \<times> network" where
  "generate_roads net [] = (None, net)"
| "generate_roads net (segment # segments) =
     (case add_segment net segment of
        (Some e, net') \<Rightarrow> (Some e, net')
      | (None, net') \<Rightarrow> generate_roads net' segments)"

definition segments_of :: "Graph \<Rightarrow> Segment list" where
  "segments_of g =
     concat (map (\<lambda>(startnode, edges). map (\<lambda>(_, endnode). (startnode, endnode)) edges) g)"

definition convert_to_segments :: "network \<Rightarrow> Segment list" where
  "convert_to_segments net = segments_of (outgoing net)"

definition generate_gates :: "network \<Rightarrow> network" where
  "generate_gates net =
     net\<lparr>entry_gates :=
           filter (\<lambda>node. length (get_or_empty (outgoing net) node) = 1
                          \<and> length (get_or_empty (incoming net) node) = 0)
                  (keys (outgoing net)),
         exit_gates :=
           filter (\<lambda>node. length (get_or_empty (incoming net) node) = 1
                          \<and> length (get_or_empty (outgoing net) node) = 0)
                  (keys (incoming net))\<rparr>"

subsection \<open>Validation of an explicit segment list (CustomRoadNetwork)\<close>

text \<open>The first error of a sequence of checks, in the order in which they run.\<close>

fun first_error :: "error option list \<Rightarrow> error option" where
  "first_error [] = None"
| "first_error (None # checks) = first_error checks"
| "first_error (Some e # checks) = Some e"

text \<open>\<^verbatim>\<open>_sort_by_direction\<close>: the two result lists are the accumulators of the loop.\<close>

fun sort_by_direction_loop ::
    "Segment list \<Rightarrow> Segment list \<Rightarrow> Segment list \<Rightarrow> error + (Segment list \<times> Segment list)" where
  "sort_by_direction_loop [] vertical_lines horizontal_lines =
     Inr (vertical_lines, horizontal_lines)"
| "sort_by_direction_loop (segment # segments) vertical_lines horizontal_lines =
     (case segment of ((x1, y1), (x2, y2)) \<Rightarrow>
        if x1 = x2 \<and> y1 \<noteq> y2
        then sort_by_direction_loop segments (vertical_lines @ [segment]) horizontal_lines
        else if y1 = y2 \<and> x1 \<noteq> x2
        then sort_by_direction_loop segments vertical_lines (horizontal_lines @ [segment])
        else Inl InvalidSegment)"

definition sort_by_direction :: "Segment list \<Rightarrow> error + (Segment list \<times> Segment list)" where
  "sort_by_direction segments = sort_by_direction_loop segments [] []"

text \<open>\<^verbatim>\<open>node[axis]\<close> for a node and an axis 0 or 1.\<close>

definition coord :: "Node \<Rightarrow> nat \<Rightarrow> int" where
  "coord node axis = (if axis = 0 then fst node else snd node)"

text \<open>
  \<^verbatim>\<open>_check_adjacent_overlap\<close>. Python's \<^verbatim>\<open>sorted\<close> is stable, as is
  \<^const>\<open>sort_key\<close>. The loop over \<^verbatim>\<open>range(len(sorted_segments) - 1)\<close> compares each
  segment with its successor.
\<close>

fun check_adjacent_pairs :: "nat \<Rightarrow> nat \<Rightarrow> Segment list \<Rightarrow> error option" where
  "check_adjacent_pairs fixed_axis main_axis (current_segment # next_segment # rest) =
     (let A_start = coord (fst current_segment) main_axis;
          A_end = coord (snd current_segment) main_axis;
          B_start = coord (fst next_segment) main_axis;
          B_end = coord (snd next_segment) main_axis
      in if coord (fst current_segment) fixed_axis = coord (fst next_segment) fixed_axis
            \<and> ((A_start < B_end \<and> B_start < A_end) \<or> (A_start = B_start \<and> A_end = B_end))
         then Some Overlap
         else check_adjacent_pairs fixed_axis main_axis (next_segment # rest))"
| "check_adjacent_pairs fixed_axis main_axis segments = None"

definition check_adjacent_overlap :: "Segment list \<Rightarrow> string \<Rightarrow> error option" where
  "check_adjacent_overlap segments orientation =
     (let fixed_axis = (if orientation = ''horizontal'' then 1 else 0);
          main_axis = (if orientation = ''horizontal'' then 0 else 1);
          sorted_segments = sort_key (\<lambda>line. coord (fst line) main_axis) segments
      in check_adjacent_pairs fixed_axis main_axis sorted_segments)"

text \<open>\<^verbatim>\<open>_check_intersections\<close>: the inner loop over the vertical segments, then the outer one.\<close>

fun check_intersections_with :: "Segment \<Rightarrow> Segment list \<Rightarrow> error option" where
  "check_intersections_with h_seg [] = None"
| "check_intersections_with h_seg (v_seg # vertical_lines) =
     (let h_min_x = min (fst (fst h_seg)) (fst (snd h_seg));
          h_max_x = max (fst (fst h_seg)) (fst (snd h_seg));
          v_min_y = min (snd (fst v_seg)) (snd (snd v_seg));
          v_max_y = max (snd (fst v_seg)) (snd (snd v_seg))
      in if (h_min_x \<le> fst (fst v_seg) \<and> fst (fst v_seg) \<le> h_max_x)
            \<and> v_min_y < snd (fst h_seg) \<and> snd (fst h_seg) < v_max_y
         then Some Crossing
         else if (h_min_x < fst (fst v_seg) \<and> fst (fst v_seg) < h_max_x)
            \<and> (v_min_y = snd (fst h_seg) \<or> v_max_y = snd (fst h_seg))
         then Some NodeOnSegment
         else check_intersections_with h_seg vertical_lines)"

fun check_intersections :: "Segment list \<Rightarrow> Segment list \<Rightarrow> error option" where
  "check_intersections [] vertical_lines = None"
| "check_intersections (h_seg # horizontal_lines) vertical_lines =
     (case check_intersections_with h_seg vertical_lines of
        Some e \<Rightarrow> Some e
      | None \<Rightarrow> check_intersections horizontal_lines vertical_lines)"

text \<open>
  \<^verbatim>\<open>_check_is_connected_network\<close>. The undirected graph starts with every key of
  \<^verbatim>\<open>outgoing\<close> mapped to the empty list; the two nested loops visit the segments of the
  graph in the order of \<^const>\<open>segments_of\<close>.
\<close>

fun add_undirected ::
    "(Node \<times> Node list) list \<Rightarrow> Segment list \<Rightarrow> error + (Node \<times> Node list) list" where
  "add_undirected undirected_graph [] = Inr undirected_graph"
| "add_undirected undirected_graph ((node, endnode) # segments) =
     (case dict_append undirected_graph node endnode of
        Inl e \<Rightarrow> Inl e
      | Inr g1 \<Rightarrow>
          (case dict_append g1 endnode node of
             Inl e \<Rightarrow> Inl e
           | Inr g2 \<Rightarrow> add_undirected g2 segments))"

text \<open>The loop over the neighbours of the node taken from the queue.\<close>

fun visit_neighbors :: "Node list \<Rightarrow> Node list \<Rightarrow> Node list \<Rightarrow> Node list \<times> Node list" where
  "visit_neighbors [] visited queue = (visited, queue)"
| "visit_neighbors (neighbor # neighbors) visited queue =
     (if neighbor \<notin> set visited
      then visit_neighbors neighbors (visited @ [neighbor]) (queue @ [neighbor])
      else visit_neighbors neighbors visited queue)"

definition nodes_of :: "(Node \<times> Node list) list \<Rightarrow> Node set" where
  "nodes_of g = set (keys g) \<union> (\<Union>entry \<in> set g. set (snd entry))"

function bfs :: "(Node \<times> Node list) list \<Rightarrow> Node list \<Rightarrow> Node list \<Rightarrow> error + Node list" where
  "bfs undirected_graph visited [] = Inr visited"
| "bfs undirected_graph visited (node # queue) =
     (case map_of undirected_graph node of
        None \<Rightarrow> Inl KeyError
      | Some neighbors \<Rightarrow>
          bfs undirected_graph (fst (visit_neighbors neighbors visited queue))
                               (snd (visit_neighbors neighbors visited queue)))"
  by pat_completeness auto

definition check_is_connected_network :: "network \<Rightarrow> error option" where
  "check_is_connected_network net =
     (if outgoing net = [] then None
      else (case add_undirected (map (\<lambda>node. (node, [])) (keys (outgoing net)))
                                (segments_of (outgoing net)) of
              Inl e \<Rightarrow> Some e
            | Inr undirected_graph \<Rightarrow>
                (let start_node = hd (keys undirected_graph)
                 in (case bfs undirected_graph [start_node] [start_node] of
                       Inl e \<Rightarrow> Some e
                     | Inr visited \<Rightarrow>
                         if length undirected_graph \<noteq> length visited
                         then Some NotConnected else None))))"

text \<open>\<^verbatim>\<open>search_for_invalid_intersections\<close>\<close>

definition search_for_invalid_intersections :: "network \<Rightarrow> error option" where
  "search_for_invalid_intersections net =
     (if list_ex (\<lambda>node. get_or_empty (outgoing net) node = [] \<and> node \<notin> set (exit_gates net))
                 (keys (outgoing net))
      then Some NoExit
      else if list_ex (\<lambda>node. get_or_empty (incoming net) node = []
                               \<and> node \<notin> set (entry_gates net))
                      (keys (incoming net))
      then Some NoEntrance
      else None)"

text \<open>
  \<^verbatim>\<open>enforce_reachability\<close>. The set \<^verbatim>\<open>visited\<close> is a list without repetitions
  (\<^const>\<open>List.insert\<close> adds an element that is not yet there); the stack is a Python list,
  popped and pushed at its end.
\<close>

function reachability_loop :: "Graph \<Rightarrow> Node list \<Rightarrow> Node list \<Rightarrow> error + Node list" where
  "reachability_loop g visited stack =
     (if stack = [] then Inr visited
      else (case map_of g (last stack) of
              None \<Rightarrow> Inl KeyError
            | Some edges \<Rightarrow>
                reachability_loop g (List.insert (last stack) visited)
                  (butlast stack
                   @ filter (\<lambda>neighbour. neighbour \<notin> set (List.insert (last stack) visited))
                            (map snd edges))))"
  by pat_completeness auto

text \<open>The measure of the stack that decreases when a node already visited is popped.\<close>

definition stack_weight :: "Graph \<Rightarrow> Node list \<Rightarrow> Node list \<Rightarrow> nat" where
  "stack_weight g visited stack =
     sum_list (map (\<lambda>x. if x \<in> set visited then 2 + length (get_or_empty g x) else 1) stack)"

definition enforce_reachability :: "network \<Rightarrow> error option" where
  "enforce_reachability net =
     (case reachability_loop (outgoing net) [] (entry_gates net) of
        Inl e \<Rightarrow> Some e
      | Inr visited \<Rightarrow>
          if length visited \<noteq> length (outgoing net) then Some Unreachable else None)"

text \<open>\<^verbatim>\<open>validate_roads\<close>\<close>

definition validate_roads :: "network \<Rightarrow> error option" where
  "validate_roads net =
     (if entry_gates net = [] then Some NoEntryGate
      else if exit_gates net = [] then Some NoExitGate
      else (case sort_by_direction (convert_to_segments net) of
              Inl e \<Rightarrow> Some e
            | Inr (vertical_lines, horizontal_lines) \<Rightarrow>
                first_error
                  [check_adjacent_overlap vertical_lines ''vertical'',
                   check_adjacent_overlap horizontal_lines ''horizontal'',
                   check_intersections horizontal_lines vertical_lines,
                   check_is_connected_network net,
                   search_for_invalid_intersections net]))"

text \<open>
  \<^verbatim>\<open>CustomRoadNetwork.__init__\<close>: an exception leaves no object, so the result is
  either the error or the finished network.
\<close>

definition CustomRoadNetwork_init :: "Segment list \<Rightarrow> bool \<Rightarrow> error + network" where
  "CustomRoadNetwork_init segments enforce_valid_paths =
     (case generate_roads empty_network segments of
        (Some e, net) \<Rightarrow> Inl e
      | (None, net) \<Rightarrow>
          (let net1 = generate_gates net
           in (case validate_roads net1 of
                 Some e \<Rightarrow> Inl e
               | None \<Rightarrow>
                   if enforce_valid_paths
                   then (case enforce_reachability net1 of
                           Some e \<Rightarrow> Inl e
                         | None \<Rightarrow> Inr net1)
                   else Inr net1)))"


section \<open>Traffic simulation (road.py, car.py, intersection.py, map_manager.py)\<close>

text \<open>
  Positions are numpy arrays of two floats; they are modelled as pairs of reals, and
  \<^verbatim>\<open>np.linalg.norm\<close> as \<^const>\<open>norm2\<close>. Cars, roads and intersections are Python
  objects that refer to each other and are mutated in place. They are modelled by a store:
  a reference is a natural number, and the state of the simulation maps references to
  records. A deque of cars is a list of car references, front first. The colour of a car
  plays no part in the movement and is left out.
\<close>

type_synonym Position = "real \<times> real"

fun vadd :: "Position \<Rightarrow> Position \<Rightarrow> Position" where
  "vadd (a, b) (c, d) = (a + c, b + d)"

fun vsub :: "Position \<Rightarrow> Position \<Rightarrow> Position" where
  "vsub (a, b) (c, d) = (a - c, b - d)"

fun vscale :: "real \<Rightarrow> Position \<Rightarrow> Position" where
  "vscale k (a, b) = (k * a, k * b)"

record Car =
  position :: Position
  max_speed :: real

record Road =
  startnode :: Position
  endnode :: Position
  direction :: Position
  spawn_probability :: real
  has_entry :: bool
  has_exit :: bool
  connected_intersection :: "nat option"
  cars :: "nat list"
  clearance :: real
  stop_line :: Position

record Intersection =
  crossing :: Position
  incoming_roads :: "nat list"
  outgoing_roads :: "nat list"
  min_clearance :: real

text \<open>
  The state: the three stores, the fields of the \<^verbatim>\<open>MapManager\<close>, the class variable
  \<^verbatim>\<open>Car.generation_count\<close>, and the random generator, given as the sequence of the
  numbers it will return and the count of those already drawn.
\<close>

record sim =
  car_store :: "nat \<Rightarrow> Car"
  road_store :: "nat \<Rightarrow> Road"
  intersection_store :: "nat \<Rightarrow> Intersection"
  roads :: "nat list"
  entry_roads :: "nat list"
  intersections :: "nat list"
  manager_clearance :: real
  generation_count :: nat
  random_floats :: "nat \<Rightarrow> real"
  random_indices :: "nat \<Rightarrow> nat"
  random_drawn :: nat

text \<open>\<^verbatim>\<open>Road.__init__\<close>\<close>

definition Road_init ::
    "Position \<times> Position \<Rightarrow> Position \<Rightarrow> real \<Rightarrow> real \<Rightarrow> bool \<Rightarrow> bool \<Rightarrow> error + Road" where
  "Road_init segment dir clear probability entry exit =
     (if probability < 0 \<or> probability > 1 then Inl BadProbability
      else if clear \<le> 0 then Inl BadClearance
      else if norm2 (vsub (snd segment) (fst segment)) \<le> clear then Inl RoadTooShort
      else if norm2 (vsub (snd segment) (fst segment)) = 0 then Inl NoDirection
      else Inr \<lparr>startnode = fst segment, endnode = snd segment, direction = dir,
                spawn_probability = probability, has_entry = entry, has_exit = exit,
                connected_intersection = None, cars = [], clearance = clear,
                stop_line = vsub (snd segment) (vscale clear dir)\<rparr>)"

text \<open>\<^verbatim>\<open>Road.distance_to_endnode\<close>\<close>

definition distance_to_endnode :: "Road \<Rightarrow> Position \<Rightarrow> real" where
  "distance_to_endnode road pos = norm2 (vsub pos (endnode road))"

text \<open>\<^verbatim>\<open>Car.move\<close>, on the car behind a reference.\<close>

definition move :: "sim \<Rightarrow> nat \<Rightarrow> Position \<Rightarrow> sim" where
  "move s car pos = s\<lparr>car_store := (car_store s)(car := (car_store s car)\<lparr>position := pos\<rparr>)\<rparr>"

text \<open>\<^verbatim>\<open>Road.add_car\<close> and \<^verbatim>\<open>Road.remove_first_car\<close> (\<^verbatim>\<open>popleft\<close>).\<close>

definition add_car :: "sim \<Rightarrow> nat \<Rightarrow> nat \<Rightarrow> sim" where
  "add_car s road car =
     s\<lparr>road_store := (road_store s)(road := (road_store s road)\<lparr>cars := cars (road_store s road) @ [car]\<rparr>)\<rparr>"

definition remove_first_car :: "sim \<Rightarrow> nat \<Rightarrow> error + (nat \<times> sim)" where
  "remove_first_car s road =
     (case cars (road_store s road) of
        [] \<Rightarrow> Inl IndexError
      | car # rest \<Rightarrow>
          Inr (car, s\<lparr>road_store := (road_store s)(road := (road_store s road)\<lparr>cars := rest\<rparr>)\<rparr>))"

subsection \<open>Intersection\<close>

text \<open>\<^verbatim>\<open>Intersection.distance_to_car\<close>\<close>

definition distance_to_car :: "sim \<Rightarrow> nat \<Rightarrow> nat \<Rightarrow> real" where
  "distance_to_car s i car =
     norm2 (vsub (position (car_store s car)) (crossing (intersection_store s i)))"

text \<open>
  \<^verbatim>\<open>closest_incoming_car\<close>: the loop over the incoming roads, with the two local
  variables \<^verbatim>\<open>closest_car\<close> and \<^verbatim>\<open>min_distance\<close>.
\<close>

fun closest_incoming_loop :: "sim \<Rightarrow> nat \<Rightarrow> nat list \<Rightarrow> nat \<Rightarrow> real \<Rightarrow> nat" where
  "closest_incoming_loop s i [] closest_car min_distance = closest_car"
| "closest_incoming_loop s i (road # rest) closest_car min_distance =
     (case cars (road_store s road) of
        [] \<Rightarrow> closest_incoming_loop s i rest closest_car min_distance
      | first # _ \<Rightarrow>
          if distance_to_car s i first < min_distance
          then closest_incoming_loop s i rest first (distance_to_car s i first)
          else closest_incoming_loop s i rest closest_car min_distance)"

definition closest_incoming_car :: "sim \<Rightarrow> nat \<Rightarrow> nat \<Rightarrow> nat" where
  "closest_incoming_car s i priority_car =
     closest_incoming_loop s i (incoming_roads (intersection_store s i)) priority_car
       (distance_to_car s i priority_car)"

text \<open>
  \<^verbatim>\<open>closest_outgoing_car\<close>. While \<^verbatim>\<open>closest_car\<close> is \<^verbatim>\<open>None\<close> the value of
  \<^verbatim>\<open>min_distance\<close> (infinity) is not read, so the two variables are one optional pair.
\<close>

fun closest_outgoing_loop :: "sim \<Rightarrow> nat \<Rightarrow> nat list \<Rightarrow> (nat \<times> real) option \<Rightarrow> (nat \<times> real) option" where
  "closest_outgoing_loop s i [] closest = closest"
| "closest_outgoing_loop s i (road # rest) closest =
     (if cars (road_store s road) = [] then closest_outgoing_loop s i rest closest
      else (let distance = distance_to_car s i (last (cars (road_store s road)))
            in (case closest of
                  None \<Rightarrow> closest_outgoing_loop s i rest
                            (Some (last (cars (road_store s road)), distance))
                | Some (closest_car, min_distance) \<Rightarrow>
                    if distance < min_distance
                    then closest_outgoing_loop s i rest
                           (Some (last (cars (road_store s road)), distance))
                    else closest_outgoing_loop s i rest closest)))"

definition closest_outgoing_car :: "sim \<Rightarrow> nat \<Rightarrow> nat option" where
  "closest_outgoing_car s i =
     map_option fst (closest_outgoing_loop s i (outgoing_roads (intersection_store s i)) None)"

text \<open>\<^verbatim>\<open>can_approach\<close>. Cars are compared by identity, that is, by reference.\<close>

definition can_approach :: "sim \<Rightarrow> nat \<Rightarrow> nat \<Rightarrow> bool" where
  "can_approach s i car =
     (case closest_outgoing_car s i of
        Some closest_car \<Rightarrow>
          if distance_to_car s i closest_car < min_clearance (intersection_store s i) then False
          else if car \<noteq> closest_incoming_car s i car then False
          else True
      | None \<Rightarrow>
          if car \<noteq> closest_incoming_car s i car then False else True)"

text \<open>
  \<^verbatim>\<open>find_available_road\<close>. \<^verbatim>\<open>random.choice\<close> is called only on a non-empty list; it
  returns the element at an index below the length, here the next number of the generator
  modulo the length.
\<close>

definition available_roads :: "sim \<Rightarrow> nat \<Rightarrow> nat list" where
  "available_roads s i =
     filter (\<lambda>road. cars (road_store s road) = []
               \<or> norm2 (vsub (position (car_store s (last (cars (road_store s road)))))
                             (crossing (intersection_store s i)))
                  \<ge> min_clearance (intersection_store s i) * 2)
            (outgoing_roads (intersection_store s i))"

definition find_available_road :: "sim \<Rightarrow> nat \<Rightarrow> nat option \<times> sim" where
  "find_available_road s i =
     (if available_roads s i = [] then (None, s)
      else (Some (available_roads s i
                    ! (random_indices s (random_drawn s) mod length (available_roads s i))),
            s\<lparr>random_drawn := random_drawn s + 1\<rparr>))"

subsection \<open>MapManager\<close>

text \<open>\<^verbatim>\<open>MapManager._max_speed\<close>; \<^verbatim>\<open>car_in_front\<close> is a car or \<^verbatim>\<open>None\<close>.\<close>

definition manager_max_speed :: "sim \<Rightarrow> nat \<Rightarrow> nat option \<Rightarrow> nat \<Rightarrow> real" where
  "manager_max_speed s car car_in_front road =
     (let dist_to_end = norm2 (vsub (endnode (road_store s road)) (position (car_store s car)))
      in (case car_in_front of
            Some front \<Rightarrow>
              (let dist_to_car_infront =
                     norm2 (vsub (position (car_store s front)) (position (car_store s car)));
                   max_movement = min (dist_to_car_infront - manager_clearance s)
                                      (max_speed (car_store s car));
                   max_movement' = max 0 max_movement
               in min dist_to_end max_movement')
          | None \<Rightarrow> min dist_to_end (max_speed (car_store s car))))"

text \<open>
  \<^verbatim>\<open>MapManager._handle_exit\<close>. The intersection is the road's
  \<^verbatim>\<open>connected_intersection\<close>, which is \<^verbatim>\<open>None\<close> until an intersection is linked.
\<close>

definition handle_exit :: "sim \<Rightarrow> nat \<Rightarrow> nat option \<Rightarrow> error + sim" where
  "handle_exit s road intersection =
     (if has_exit (road_store s road)
      then (case remove_first_car s road of
              Inl e \<Rightarrow> Inl e
            | Inr (car, s1) \<Rightarrow> Inr s1)
      else (case intersection of
              None \<Rightarrow> Inl AttributeError
            | Some i \<Rightarrow>
                (case find_available_road s i of
                   (None, s1) \<Rightarrow> Inr s1
                 | (Some new_road, s1) \<Rightarrow>
                     (case remove_first_car s1 road of
                        Inl e \<Rightarrow> Inl e
                      | Inr (car, s2) \<Rightarrow> Inr (add_car s2 new_road car)))))"

text \<open>
  The body of the inner loop of \<^verbatim>\<open>move_cars\<close>, for one car of the copied deque. The
  second operand of \<^verbatim>\<open>and\<close> is evaluated only when the first holds.
\<close>

definition move_car :: "sim \<Rightarrow> nat \<Rightarrow> nat option \<Rightarrow> nat \<Rightarrow> error + sim" where
  "move_car s road car_in_front car =
     (let intersection = connected_intersection (road_store s road);
          speed = manager_max_speed s car car_in_front road;
          max_position = vadd (position (car_store s car))
                              (vscale speed (direction (road_store s road)))
      in if distance_to_endnode (road_store s road) max_position \<le> manager_clearance s
         then (case intersection of
                 None \<Rightarrow> Inl AttributeError
               | Some i \<Rightarrow>
                   if \<not> can_approach s i car
                   then Inr (move s car (stop_line (road_store s road)))
                   else (let s1 = move s car max_position
                         in if position (car_store s1 car) = endnode (road_store s1 road)
                            then handle_exit s1 road intersection else Inr s1))
         else (let s1 = move s car max_position
               in if position (car_store s1 car) = endnode (road_store s1 road)
                  then handle_exit s1 road intersection else Inr s1))"

text \<open>
  The inner loop: \<^verbatim>\<open>for i, car in enumerate(cars)\<close> over the copy of the deque, where
  the car in front is the previous element of the copy.
\<close>

fun move_cars_on_road :: "sim \<Rightarrow> nat \<Rightarrow> nat option \<Rightarrow> nat list \<Rightarrow> error + sim" where
  "move_cars_on_road s road car_in_front [] = Inr s"
| "move_cars_on_road s road car_in_front (car # rest) =
     (case move_car s road car_in_front car of
        Inl e \<Rightarrow> Inl e
      | Inr s1 \<Rightarrow> move_cars_on_road s1 road (Some car) rest)"

definition move_road :: "sim \<Rightarrow> nat \<Rightarrow> error + sim" where
  "move_road s road = move_cars_on_road s road None (cars (road_store s road))"

text \<open>
  \<^verbatim>\<open>move_cars\<close>. The shuffled copy of the list of roads is the argument
  \<open>road_copy\<close>: any permutation of \<^const>\<open>roads\<close>.
\<close>

fun move_cars :: "sim \<Rightarrow> nat list \<Rightarrow> error + sim" where
  "move_cars s [] = Inr s"
| "move_cars s (road # road_copy) =
     (case move_road s road of
        Inl e \<Rightarrow> Inl e
      | Inr s1 \<Rightarrow> move_cars s1 road_copy)"

text \<open>
  \<^verbatim>\<open>Road.generate_car_from_gate\<close>. A new car takes \<^verbatim>\<open>Car.generation_count\<close> as its
  identifier and reference; its speed is \<^verbatim>\<open>random.uniform(0.7, 1.3)\<close>. The three random
  numbers of its colour are drawn before the speed.
\<close>

definition generate_car_from_gate :: "sim \<Rightarrow> nat \<Rightarrow> sim" where
  "generate_car_from_gate s road =
     (if has_entry (road_store s road)
         \<and> (cars (road_store s road) = []
            \<or> norm2 (vsub (position (car_store s (last (cars (road_store s road)))))
                          (startnode (road_store s road)))
               \<ge> clearance (road_store s road))
      then (if random_floats s (random_drawn s) \<le> spawn_probability (road_store s road)
            then (let new_car = \<lparr>position = startnode (road_store s road),
                                 max_speed = 0.7 + (1.3 - 0.7) * random_floats s (random_drawn s + 4)\<rparr>;
                      s1 = s\<lparr>car_store := (car_store s)(generation_count s := new_car),
                             generation_count := generation_count s + 1,
                             random_drawn := random_drawn s + 5\<rparr>
                  in add_car s1 road (generation_count s))
            else s\<lparr>random_drawn := random_drawn s + 1\<rparr>)
      else s)"

fun generate_cars_loop :: "sim \<Rightarrow> nat list \<Rightarrow> sim" where
  "generate_cars_loop s [] = s"
| "generate_cars_loop s (road # rest) = generate_cars_loop (generate_car_from_gate s road) rest"

definition generate_cars :: "sim \<Rightarrow> sim" where
  "generate_cars s = generate_cars_loop s (entry_roads s)"

text \<open>
  \<^verbatim>\<open>update_car\<close>, one tick: movement, then spawning. The two lists it fills for the
  renderer are not modelled.
\<close>

definition update_car :: "sim \<Rightarrow> nat list \<Rightarrow> error + sim" where
  "update_car s road_copy =
     (case move_cars s road_copy of
        Inl e \<Rightarrow> Inl e
      | Inr s1 \<Rightarrow> Inr (generate_cars s1))"


subsection \<open>Invariants of the graph and degrees of a node\<close>

text \<open>
  Every stored edge carries the unit vector of its own segment, the keys of each dictionary
  are distinct, and the incoming dictionary lists, for every node, the start nodes of the
  edges that end there.
\<close>

definition edge_dirs_ok :: "network \<Rightarrow> bool" where
  "edge_dirs_ok net =
     (\<forall>s es d e. map_of (outgoing net) s = Some es \<longrightarrow> (d, e) \<in> set es
        \<longrightarrow> get_unit_vector (s, e) = Inr d)"

definition incoming_consistent :: "network \<Rightarrow> bool" where
  "incoming_consistent net =
     (\<forall>n. mset (get_or_empty (incoming net) n)
          = mset (map fst (filter (\<lambda>seg. snd seg = n) (convert_to_segments net))))"

definition wf_network :: "network \<Rightarrow> bool" where
  "wf_network net =
     (distinct (keys (outgoing net)) \<and> distinct (keys (incoming net))
      \<and> edge_dirs_ok net \<and> incoming_consistent net)"

definition out_degree :: "network \<Rightarrow> Node \<Rightarrow> nat" where
  "out_degree net n = length (filter (\<lambda>seg. fst seg = n) (convert_to_segments net))"

definition in_degree :: "network \<Rightarrow> Node \<Rightarrow> nat" where
  "in_degree net n = length (filter (\<lambda>seg. snd seg = n) (convert_to_segments net))"

subsection \<open>Vehicles next to an intersection\<close>

text \<open>The last vehicle of every non-empty road of a list of roads.\<close>

definition back_cars :: "sim \<Rightarrow> nat list \<Rightarrow> nat list" where
  "back_cars s rs =
     map (\<lambda>road. last (cars (road_store s road)))
         (filter (\<lambda>road. cars (road_store s road) \<noteq> []) rs)"

subsection \<open>Example networks\<close>

text \<open>The network built from the single segment \<open>(0,0) \<rightarrow> (0,1)\<close>.\<close>

definition example_net :: network where
  "example_net =
     \<lparr>outgoing = [((0, 0), [((0, 1), (0, 1))]), ((0, 1), [])],
      incoming = [((0, 0), []), ((0, 1), [(0, 0)])],
      entry_gates = [], exit_gates = []\<rparr>"

text \<open>Three segments forming a path with one entry gate and one exit gate.\<close>

definition example_segments :: "Segment list" where
  "example_segments = [((0, 0), (0, 1)), ((0, 1), (1, 1)), ((1, 1), (1, 2))]"

subsection \<open>Example states of the simulation\<close>

text \<open>
  An intersection (reference 0) at the origin with clearance 6, an incoming road (reference
  0) from \<open>(-20,0)\<close> with car 2 at its start, and an outgoing road (reference 2) to
  \<open>(20,0)\<close> with car 3 at distance \<open>d\<close> from the intersection.
\<close>

definition junction :: "real \<Rightarrow> sim" where
  "junction d =
     \<lparr>car_store = (\<lambda>_. \<lparr>position = (0, 0), max_speed = 1\<rparr>)
          (2 := \<lparr>position = (- 20, 0), max_speed = 1\<rparr>,
           3 := \<lparr>position = (d, 0), max_speed = 1\<rparr>),
      road_store = (\<lambda>_. \<lparr>startnode = (- 20, 0), endnode = (0, 0), direction = (1, 0),
                           spawn_probability = 1, has_entry = True, has_exit = False,
                           connected_intersection = Some 0, cars = [2], clearance = 6,
                           stop_line = (- 6, 0)\<rparr>)
          (2 := \<lparr>startnode = (0, 0), endnode = (20, 0), direction = (1, 0),
                  spawn_probability = 1, has_entry = False, has_exit = True,
                  connected_intersection = None, cars = [3], clearance = 6,
                  stop_line = (14, 0)\<rparr>),
      intersection_store = (\<lambda>_. \<lparr>crossing = (0, 0), incoming_roads = [0],
                                   outgoing_roads = [2], min_clearance = 6\<rparr>),
      roads = [0, 2], entry_roads = [0], intersections = [0], manager_clearance = 6,
      generation_count = 4, random_floats = (\<lambda>_. 0), random_indices = (\<lambda>_. 0),
      random_drawn = 0\<rparr>"

text \<open>
  The single road (reference 0) from \<open>(0,0)\<close> to \<open>(100,0)\<close> with clearance 6, between
  the intersections at its two nodes (references 0 and 2); vehicle A (reference 2) at
  \<open>(10,0)\<close> with maximum speed 10 in front and vehicle B (reference 3) at \<open>(4,0)\<close> with
  maximum speed 20 behind it. The random generator is arbitrary.
\<close>

definition two_cars :: "(nat \<Rightarrow> real) \<Rightarrow> (nat \<Rightarrow> nat) \<Rightarrow> sim" where
  "two_cars rf ri =
     \<lparr>car_store = (\<lambda>_. \<lparr>position = (0, 0), max_speed = 1\<rparr>)
          (2 := \<lparr>position = (10, 0), max_speed = 10\<rparr>,
           3 := \<lparr>position = (4, 0), max_speed = 20\<rparr>),
      road_store = (\<lambda>_. \<lparr>startnode = (0, 0), endnode = (100, 0), direction = (1, 0),
                           spawn_probability = 1, has_entry = True, has_exit = True,
                           connected_intersection = Some 2, cars = [2, 3], clearance = 6,
                           stop_line = (94, 0)\<rparr>),
      intersection_store = (\<lambda>_. \<lparr>crossing = (0, 0), incoming_roads = [],
                                   outgoing_roads = [0], min_clearance = 6\<rparr>)
          (2 := \<lparr>crossing = (100, 0), incoming_roads = [0],
                  outgoing_roads = [], min_clearance = 6\<rparr>),
      roads = [0], entry_roads = [0], intersections = [0, 2], manager_clearance = 6,
      generation_count = 4, random_floats = rf, random_indices = ri,
      random_drawn = 0\<rparr>"

section \<open>Termination of the graph traversals\<close>

lemma visit_neighbors_unchanged:
  "set neighbors \<subseteq> set visited \<Longrightarrow> visit_neighbors neighbors visited queue = (visited, queue)"
  by (induction neighbors arbitrary: visited queue) auto

lemma visit_neighbors_visited:
  "set (fst (visit_neighbors neighbors visited queue)) = set visited \<union> set neighbors"
  by (induction neighbors arbitrary: visited queue) auto

lemma finite_nodes_of: "finite (nodes_of g)"
  by (simp add: nodes_of_def)

lemma neighbors_in_nodes_of: "map_of g node = Some neighbors \<Longrightarrow> set neighbors \<subseteq> nodes_of g"
  by (auto simp: nodes_of_def dest!: map_of_SomeD)

termination bfs
  apply (relation "inv_image (less_than <*lex*> less_than)
         (\<lambda>(g, visited, queue). (card (nodes_of g - set visited), length queue))")
   apply (intro wf_inv_image wf_lex_prod wf_less_than)
  subgoal for g visited node queue neighbors
  proof (cases "set neighbors \<subseteq> set visited")
    case True
    then show ?thesis by (simp add: visit_neighbors_unchanged)
  next
    case False
    assume m: "map_of g node = Some neighbors"
    from False obtain nb where nb: "nb \<in> set neighbors" "nb \<notin> set visited" by blast
    from m have "set neighbors \<subseteq> nodes_of g" by (rule neighbors_in_nodes_of)
    with nb have "nodes_of g - (set visited \<union> set neighbors) \<subset> nodes_of g - set visited"
      by blast
    then have "card (nodes_of g - (set visited \<union> set neighbors)) < card (nodes_of g - set visited)"
      by (intro psubset_card_mono) (simp_all add: finite_nodes_of)
    then show ?thesis by (simp add: visit_neighbors_visited case_prod_unfold)
  qed
  done

lemma stack_weight_append [simp]:
  "stack_weight g visited (xs @ ys) = stack_weight g visited xs + stack_weight g visited ys"
  by (simp add: stack_weight_def)

lemma stack_weight_unvisited:
  "\<forall>x \<in> set xs. x \<notin> set visited \<Longrightarrow> stack_weight g visited xs = length xs"
  by (induction xs) (auto simp: stack_weight_def)

termination reachability_loop
  apply (relation "inv_image (less_than <*lex*> less_than)
         (\<lambda>(g, visited, stack). (card (set (keys g) - set visited), stack_weight g visited stack))")
   apply (intro wf_inv_image wf_lex_prod wf_less_than)
  subgoal for g visited stack edges
  proof -
    assume ne: "stack \<noteq> []" and m: "map_of g (last stack) = Some edges"
    let ?node = "last stack"
    let ?pushed = "filter (\<lambda>neighbour. neighbour \<notin> set (List.insert ?node visited)) (map snd edges)"
    have st: "stack = butlast stack @ [?node]" using ne by simp
    show ?thesis
    proof (cases "?node \<in> set visited")
      case True
      then have ins: "List.insert ?node visited = visited" by (simp add: List.insert_def)
      have w1: "stack_weight g visited ?pushed = length ?pushed"
        by (rule stack_weight_unvisited) (simp add: ins)
      have w2: "stack_weight g visited stack
                  = stack_weight g visited (butlast stack) + (2 + length edges)"
        using True m by (subst st) (simp add: stack_weight_def get_or_empty_def)
      have le: "length ?pushed \<le> length edges"
        by (metis length_filter_le length_map)
      have w3: "stack_weight g visited (butlast stack @ ?pushed)
                  = stack_weight g visited (butlast stack) + length ?pushed"
        by (simp only: stack_weight_append w1)
      from le w2 w3 have "stack_weight g visited (butlast stack @ ?pushed) < stack_weight g visited stack"
        by linarith
      then show ?thesis by (simp add: ins)
    next
      case False
      from m have "(?node, edges) \<in> set g" by (rule map_of_SomeD)
      then have "fst (?node, edges) \<in> fst ` set g" by (rule imageI)
      then have k: "?node \<in> set (keys g)" by (simp add: keys_def)
      with False have "set (keys g) - insert ?node (set visited) \<subset> set (keys g) - set visited"
        by blast
      then have "card (set (keys g) - insert ?node (set visited)) < card (set (keys g) - set visited)"
        by (intro psubset_card_mono) simp_all
      then show ?thesis by simp
    qed
  qed
  done

section \<open>Properties of the road network construction\<close>

subsection \<open>Auxiliary facts\<close>

lemma norm2_zero_iff: "norm2 v = 0 \<longleftrightarrow> v = (0, 0)"
  by (cases v) (simp add: norm2_def)

lemma norm2_x [simp]: "norm2 (x, 0) = \<bar>x\<bar>"
  by (simp add: norm2_def)

lemma norm2_y [simp]: "norm2 (0, y) = \<bar>y\<bar>"
  by (simp add: norm2_def)

lemma norm2_nonneg [simp]: "0 \<le> norm2 v"
  by (simp add: norm2_def)

lemma norm2_minus: "norm2 (- a, - b) = norm2 (a, b)"
  by (simp add: norm2_def)

lemma get_unit_vector_neq: "get_unit_vector (s, e) = Inr d \<Longrightarrow> s \<noteq> e"
  by (cases s, cases e) (auto simp: get_unit_vector_def Let_def norm2_def split: if_splits)

lemma get_unit_vector_eq:
  "get_unit_vector ((x1, y1), (x2, y2)) =
     (if x1 = x2 \<and> y1 = y2 then Inl NoDirection
      else if x1 \<noteq> x2 \<and> y1 \<noteq> y2 then Inl Diagonal
      else Inr (sgn (real_of_int (x2 - x1)), sgn (real_of_int (y2 - y1))))"
proof -
  have z: "norm2 (real_of_int (x2 - x1), real_of_int (y2 - y1)) = 0 \<longleftrightarrow> x1 = x2 \<and> y1 = y2"
    by (auto simp: norm2_zero_iff)
  show ?thesis
  proof (cases "x1 = x2")
    case True
    then show ?thesis
      by (simp add: get_unit_vector_def Let_def real_sgn_eq norm2_zero_iff)
  next
    case False
    then show ?thesis
      by (auto simp: get_unit_vector_def Let_def real_sgn_eq norm2_zero_iff)
  qed
qed

lemma get_unit_vector_reverse:
  assumes "get_unit_vector (s, e) = Inr d"
  shows "get_unit_vector (e, s) = Inr (- fst d, - snd d)"
proof -
  obtain x1 y1 x2 y2 where se: "s = (x1, y1)" "e = (x2, y2)"
    by (cases s, cases e) auto
  have sw: "sgn (real_of_int (x1 - x2)) = - sgn (real_of_int (x2 - x1))"
           "sgn (real_of_int (y1 - y2)) = - sgn (real_of_int (y2 - y1))"
    by (simp_all add: sgn_if)
  from assms show ?thesis
    unfolding se get_unit_vector_eq sw
    by (auto split: if_splits)
qed

lemma map_of_outgoing_ensure:
  "map_of (outgoing (ensure_node_in_network net n)) k =
     (if k = n \<and> map_of (outgoing net) n = None then Some [] else map_of (outgoing net) k)"
  by (auto simp: ensure_node_in_network_def Let_def update_conv')

lemma map_of_incoming_ensure:
  "map_of (incoming (ensure_node_in_network net n)) k =
     (if k = n \<and> map_of (incoming net) n = None then Some [] else map_of (incoming net) k)"
  by (auto simp: ensure_node_in_network_def Let_def update_conv')

lemma add_segment_present:
  assumes "map_of (outgoing net) s = Some es" and "get_unit_vector (s, e) = Inr d"
    and "(d, e) \<in> set es"
  shows "fst (add_segment net (s, e)) = Some DuplicateEdge"
    and "fst (add_segment net (e, s)) = Some DuplicateEdge"
proof -
  have ex: "list_ex (\<lambda>edge. d = fst edge) es"
    using assms(3) by (force simp: list_ex_iff)
  show "fst (add_segment net (s, e)) = Some DuplicateEdge"
    using assms(1,2) ex get_unit_vector_neq[OF assms(2)]
    by (simp add: add_segment_def Let_def ensure_asymmetric_road_def map_of_outgoing_ensure)
  have "map_of (outgoing (ensure_node_in_network (ensure_node_in_network net e) s)) e \<noteq> None"
    by (simp add: map_of_outgoing_ensure)
  then obtain oe where oe: "map_of (outgoing (ensure_node_in_network (ensure_node_in_network net e) s)) e = Some oe"
    by blast
  have os: "map_of (outgoing (ensure_node_in_network (ensure_node_in_network net e) s)) s = Some es"
    using assms(1) get_unit_vector_neq[OF assms(2)] by (simp add: map_of_outgoing_ensure)
  show "fst (add_segment net (e, s)) = Some DuplicateEdge"
    using get_unit_vector_reverse[OF assms(2)] oe os ex
    by (simp add: add_segment_def Let_def ensure_asymmetric_road_def)
qed

lemma update_new_key: "map_of d k = None \<Longrightarrow> AList.update k v d = d @ [(k, v)]"
  by (induction d) (auto split: if_splits)

lemma segments_of_append [simp]: "segments_of (a @ b) = segments_of a @ segments_of b"
  by (simp add: segments_of_def)

lemma segments_of_new_key:
  "map_of g k = None \<Longrightarrow> segments_of (AList.update k [] g) = segments_of g"
  by (simp add: update_new_key) (simp add: segments_of_def)

lemma mset_segments_of_update:
  "distinct (map fst g) \<Longrightarrow> map_of g k = Some vs \<Longrightarrow>
   mset (segments_of (AList.update k (vs @ [(d, e)]) g)) = mset (segments_of g) + {#(k, e)#}"
proof (induction g)
  case Nil
  then show ?case by simp
next
  case (Cons p g)
  show ?case
  proof (cases "fst p = k")
    case True
    with Cons.prems show ?thesis
      by (cases p) (auto simp: segments_of_def)
  next
    case False
    with Cons show ?thesis
      by (cases p) (auto simp: segments_of_def)
  qed
qed

lemma get_or_empty_ensure_out [simp]:
  "get_or_empty (outgoing (ensure_node_in_network net n)) k = get_or_empty (outgoing net) k"
  by (simp add: get_or_empty_def map_of_outgoing_ensure)

lemma get_or_empty_ensure_in [simp]:
  "get_or_empty (incoming (ensure_node_in_network net n)) k = get_or_empty (incoming net) k"
  by (simp add: get_or_empty_def map_of_incoming_ensure)

lemma segments_ensure [simp]:
  "convert_to_segments (ensure_node_in_network net n) = convert_to_segments net"
  by (auto simp: convert_to_segments_def ensure_node_in_network_def Let_def segments_of_new_key)

lemma keys_outgoing_ensure:
  "keys (outgoing (ensure_node_in_network net n)) =
     keys (outgoing net) @ (if n \<in> set (keys (outgoing net)) then [] else [n])"
  by (auto simp: ensure_node_in_network_def Let_def keys_def update_new_key map_of_eq_None_iff)

lemma keys_incoming_ensure:
  "keys (incoming (ensure_node_in_network net n)) =
     keys (incoming net) @ (if n \<in> set (keys (incoming net)) then [] else [n])"
  by (auto simp: ensure_node_in_network_def Let_def keys_def update_new_key map_of_eq_None_iff)

lemma wf_ensure: "wf_network net \<Longrightarrow> wf_network (ensure_node_in_network net n)"
  unfolding wf_network_def edge_dirs_ok_def incoming_consistent_def
  by (auto simp: keys_outgoing_ensure keys_incoming_ensure map_of_outgoing_ensure split: if_splits)

lemma add_segment_cases:
  obtains (unit) e where "get_unit_vector seg = Inl e" "add_segment net seg = (Some e, net)"
  | (dup) d where "get_unit_vector seg = Inr d"
      "add_segment net seg =
         (Some DuplicateEdge, ensure_node_in_network (ensure_node_in_network net (fst seg)) (snd seg))"
  | (ok) d vs ws where "get_unit_vector seg = Inr d"
      "map_of (outgoing (ensure_node_in_network (ensure_node_in_network net (fst seg)) (snd seg))) (fst seg) = Some vs"
      "map_of (incoming (ensure_node_in_network (ensure_node_in_network net (fst seg)) (snd seg))) (snd seg) = Some ws"
      "add_segment net seg =
         (None, (ensure_node_in_network (ensure_node_in_network net (fst seg)) (snd seg))
                  \<lparr>outgoing := AList.update (fst seg) (vs @ [(d, snd seg)])
                       (outgoing (ensure_node_in_network (ensure_node_in_network net (fst seg)) (snd seg))),
                   incoming := AList.update (snd seg) (ws @ [fst seg])
                       (incoming (ensure_node_in_network (ensure_node_in_network net (fst seg)) (snd seg)))\<rparr>)"
proof (cases "get_unit_vector seg")
  case (Inl e)
  then show ?thesis using unit by (simp add: add_segment_def)
next
  case (Inr d)
  let ?n2 = "ensure_node_in_network (ensure_node_in_network net (fst seg)) (snd seg)"
  have "map_of (outgoing ?n2) (fst seg) \<noteq> None" "map_of (outgoing ?n2) (snd seg) \<noteq> None"
       "map_of (incoming ?n2) (snd seg) \<noteq> None"
    by (simp_all add: map_of_outgoing_ensure map_of_incoming_ensure)
  then obtain vs us ws where l: "map_of (outgoing ?n2) (fst seg) = Some vs"
     "map_of (outgoing ?n2) (snd seg) = Some us" "map_of (incoming ?n2) (snd seg) = Some ws"
    by auto
  show ?thesis
  proof (cases "ensure_asymmetric_road ?n2 (fst seg) (snd seg) d")
    case None
    with Inr l show ?thesis
      using ok[of d vs ws] by (simp add: add_segment_def Let_def dict_append_def)
  next
    case (Some e)
    with l have "e = DuplicateEdge"
      by (auto simp: ensure_asymmetric_road_def Let_def split: if_splits)
    with Some Inr show ?thesis
      using dup[of d] by (simp add: add_segment_def Let_def)
  qed
qed

lemma wf_empty: "wf_network empty_network"
  by (simp add: wf_network_def empty_network_def keys_def edge_dirs_ok_def
      incoming_consistent_def get_or_empty_def convert_to_segments_def segments_of_def)

lemma mset_filter_map_cong:
  "mset xs = mset ys \<Longrightarrow> mset (map f (filter P xs)) = mset (map f (filter P ys))"
  by (metis mset_filter mset_map)

lemma wf_add_segment: 
  assumes "wf_network net"
  shows "wf_network (snd (add_segment net seg))"
proof (cases rule: add_segment_cases[of seg net])
  case (unit e)
  then show ?thesis using assms by simp
next
  case (dup d)
  then show ?thesis using assms by (simp add: wf_ensure)
next
  case (ok d vs ws)
  let ?n2 = "ensure_node_in_network (ensure_node_in_network net (fst seg)) (snd seg)"
  let ?out = "AList.update (fst seg) (vs @ [(d, snd seg)]) (outgoing ?n2)"
  let ?in = "AList.update (snd seg) (ws @ [fst seg]) (incoming ?n2)"
  have wf2: "wf_network ?n2" using assms by (simp add: wf_ensure)
  have res: "snd (add_segment net seg) = ?n2\<lparr>outgoing := ?out, incoming := ?in\<rparr>"
    using ok(4) by simp
  have d1: "distinct (keys ?out)" "distinct (keys ?in)"
    using wf2 by (simp_all add: wf_network_def keys_def distinct_update)
  have dirs: "edge_dirs_ok (?n2\<lparr>outgoing := ?out, incoming := ?in\<rparr>)"
    unfolding edge_dirs_ok_def
  proof (intro allI impI)
    fix s es d' e
    assume m: "map_of (outgoing (?n2\<lparr>outgoing := ?out, incoming := ?in\<rparr>)) s = Some es"
      and el: "(d', e) \<in> set es"
    have old: "\<And>s es d e. map_of (outgoing ?n2) s = Some es \<Longrightarrow> (d, e) \<in> set es
        \<Longrightarrow> get_unit_vector (s, e) = Inr d"
      using wf2 unfolding wf_network_def edge_dirs_ok_def by blast
    show "get_unit_vector (s, e) = Inr d'"
    proof (cases "s = fst seg")
      case True
      with m have "es = vs @ [(d, snd seg)]" by (simp add: update_conv')
      with el have "(d', e) \<in> set vs \<or> (d', e) = (d, snd seg)" by auto
      then show ?thesis
      proof
        assume "(d', e) \<in> set vs"
        then have "get_unit_vector (fst seg, e) = Inr d'" by (rule old[OF ok(2)])
        then show ?thesis using True by simp
      next
        assume "(d', e) = (d, snd seg)"
        then show ?thesis using ok(1) True by simp
      qed
    next
      case False
      with m have "map_of (outgoing ?n2) s = Some es" by (simp add: update_conv')
      then show ?thesis using old el by blast
    qed
  qed
  have segs: "mset (segments_of ?out) = mset (segments_of (outgoing ?n2)) + {#(fst seg, snd seg)#}"
    using wf2 ok(2) by (intro mset_segments_of_update) (simp_all add: wf_network_def keys_def)
  have inc: "incoming_consistent (?n2\<lparr>outgoing := ?out, incoming := ?in\<rparr>)"
    unfolding incoming_consistent_def
  proof
    fix n
    have old: "mset (get_or_empty (incoming ?n2) n)
          = mset (map fst (filter (\<lambda>seg. snd seg = n) (segments_of (outgoing ?n2))))"
      using wf2 unfolding wf_network_def incoming_consistent_def convert_to_segments_def by blast
    have new: "mset (map fst (filter (\<lambda>seg. snd seg = n) (segments_of ?out)))
          = mset (map fst (filter (\<lambda>seg. snd seg = n) (segments_of (outgoing ?n2) @ [(fst seg, snd seg)])))"
      by (rule mset_filter_map_cong) (simp add: segs)
    have lhs: "get_or_empty ?in n = (if n = snd seg then ws @ [fst seg] else get_or_empty (incoming ?n2) n)"
      by (simp add: get_or_empty_def update_conv')
    have ws: "get_or_empty (incoming ?n2) (snd seg) = ws"
      using ok(3) by (simp add: get_or_empty_def)
    have goal': "mset (get_or_empty ?in n)
        = mset (map fst (filter (\<lambda>seg. snd seg = n) (segments_of (outgoing ?n2) @ [(fst seg, snd seg)])))"
      using old ws by (auto simp: lhs)
    have sel: "incoming (?n2\<lparr>outgoing := ?out, incoming := ?in\<rparr>) = ?in"
      "convert_to_segments (?n2\<lparr>outgoing := ?out, incoming := ?in\<rparr>) = segments_of ?out"
      by (simp_all add: convert_to_segments_def)
    show "mset (get_or_empty (incoming (?n2\<lparr>outgoing := ?out, incoming := ?in\<rparr>)) n)
        = mset (map fst (filter (\<lambda>seg. snd seg = n)
             (convert_to_segments (?n2\<lparr>outgoing := ?out, incoming := ?in\<rparr>))))"
      unfolding sel new by (rule goal')
  qed
  show ?thesis
    unfolding res using d1 dirs inc by (simp add: wf_network_def)
qed

lemma wf_generate_roads:
  "wf_network net \<Longrightarrow> wf_network (snd (generate_roads net segs))"
proof (induction segs arbitrary: net)
  case Nil
  then show ?case by simp
next
  case (Cons seg segs)
  from Cons.prems have w: "wf_network (snd (add_segment net seg))" by (rule wf_add_segment)
  show ?case
  proof (cases "add_segment net seg")
    case (Pair r net')
    with w Cons.IH[of net'] show ?thesis
      by (cases r) (auto)
  qed
qed

lemma segments_present:
  assumes "distinct (map fst g)" "(s, e) \<in> set (segments_of g)"
  shows "\<exists>es d. map_of g s = Some es \<and> (d, e) \<in> set es"
  using assms by (auto simp: segments_of_def)

lemma get_unit_vector_errors: "get_unit_vector seg = Inl e \<Longrightarrow> e = NoDirection \<or> e = Diagonal"
  by (cases seg rule: prod.exhaust[where 'a=Node and 'b=Node], cases "fst seg", cases "snd seg")
     (auto simp: get_unit_vector_def Let_def split: if_splits)

lemma generate_roads_single_edge: "generate_roads empty_network [((0, 0), (0, 1))] =
   (None, \<lparr>outgoing = [((0, 0), [((0, 1), (0, 1))]), ((0, 1), [])],
           incoming = [((0, 0), []), ((0, 1), [(0, 0)])], entry_gates = [], exit_gates = []\<rparr>)"
  by (simp add: empty_network_def add_segment_def get_unit_vector_def Let_def
      ensure_node_in_network_def ensure_asymmetric_road_def dict_append_def)

lemma example_unit_vector: "get_unit_vector ((0, 0), (0, 5)) = Inr (0, 1)"
  by (simp add: get_unit_vector_eq)

lemma example_ensure_start: "ensure_node_in_network example_net (0, 0) = example_net"
  by (simp add: ensure_node_in_network_def example_net_def)

lemma example_ensure_end:
  "ensure_node_in_network example_net (0, 5) =
     example_net\<lparr>outgoing := outgoing example_net @ [((0, 5), [])],
                 incoming := incoming example_net @ [((0, 5), [])]\<rparr>"
  by (simp add: ensure_node_in_network_def example_net_def)

lemma example_asymmetric:
  "ensure_asymmetric_road
     (example_net\<lparr>outgoing := outgoing example_net @ [((0, 5), [])],
                  incoming := incoming example_net @ [((0, 5), [])]\<rparr>) (0, 0) (0, 5) (0, 1)
   = Some DuplicateEdge"
  by (simp add: ensure_asymmetric_road_def example_net_def)

lemma example_add_rejected:
  "add_segment example_net ((0, 0), (0, 5)) =
     (Some DuplicateEdge,
      example_net\<lparr>outgoing := outgoing example_net @ [((0, 5), [])],
                  incoming := incoming example_net @ [((0, 5), [])]\<rparr>)"
  by (simp add: add_segment_def example_unit_vector Let_def example_ensure_start
      example_ensure_end example_asymmetric)

lemma segments_of_Cons:
  "segments_of ((k, es) # g) = map (\<lambda>edge. (k, snd edge)) es @ segments_of g"
  by (simp add: segments_of_def case_prod_unfold)

lemma filter_start_not_key:
  "n \<notin> fst ` set g \<Longrightarrow> filter (\<lambda>seg. fst seg = n) (segments_of g) = []"
proof (induction g)
  case Nil
  then show ?case by (simp add: segments_of_def)
next
  case (Cons p g)
  obtain k es where p: "p = (k, es)" by (cases p)
  with Cons show ?case
    by (auto simp: segments_of_Cons filter_empty_conv)
qed

lemma length_get_or_empty_outgoing:
  "distinct (map fst g) \<Longrightarrow>
   length (get_or_empty g n) = length (filter (\<lambda>seg. fst seg = n) (segments_of g))"
proof (induction g)
  case Nil
  then show ?case by (simp add: get_or_empty_def segments_of_def)
next
  case (Cons p g)
  obtain k es where p: "p = (k, es)" by (cases p)
  show ?case
  proof (cases "k = n")
    case True
    with Cons.prems p have "n \<notin> fst ` set g" by auto
    then have "filter (\<lambda>seg. fst seg = n) (segments_of g) = []" by (rule filter_start_not_key)
    with True p show ?thesis
      by (simp add: get_or_empty_def segments_of_Cons filter_map comp_def)
  next
    case False
    with Cons p show ?thesis
      by (simp add: get_or_empty_def segments_of_Cons filter_map comp_def)
  qed
qed

lemma out_degree_wf: "wf_network net \<Longrightarrow> length (get_or_empty (outgoing net) n) = out_degree net n"
  by (simp add: wf_network_def keys_def out_degree_def convert_to_segments_def
      length_get_or_empty_outgoing)

lemma in_degree_wf:
  assumes "wf_network net"
  shows "length (get_or_empty (incoming net) n) = in_degree net n"
proof -
  from assms have "mset (get_or_empty (incoming net) n)
      = mset (map fst (filter (\<lambda>seg. snd seg = n) (convert_to_segments net)))"
    unfolding wf_network_def incoming_consistent_def by blast
  then have "length (get_or_empty (incoming net) n)
      = length (map fst (filter (\<lambda>seg. snd seg = n) (convert_to_segments net)))"
    by (rule mset_eq_length)
  then show ?thesis by (simp only: in_degree_def length_map)
qed

lemma get_or_empty_key:
  assumes "get_or_empty d n \<noteq> []"
  shows "n \<in> set (keys d)"
proof -
  from assms obtain vs where "map_of d n = Some vs"
    by (auto simp: get_or_empty_def split: option.splits)
  then have "(n, vs) \<in> set d" by (rule map_of_SomeD)
  then have "fst (n, vs) \<in> fst ` set d" by (rule imageI)
  then show ?thesis by (simp add: keys_def)
qed

lemma example_net_built: "snd (generate_roads empty_network [((0, 0), (0, 1))]) = example_net"
  by (simp only: generate_roads_single_edge example_net_def snd_conv)

lemma example_gates:
  "entry_gates (generate_gates example_net) = [(0, 0)]"
  "exit_gates (generate_gates example_net) = [(0, 1)]"
  by (simp_all add: generate_gates_def example_net_def keys_def get_or_empty_def)

lemma add_segment_ok_segments:
  assumes "wf_network net" and "add_segment net seg = (None, net')"
  shows "mset (convert_to_segments net') = mset (convert_to_segments net) + {#seg#}"
proof (cases rule: add_segment_cases[of seg net])
  case (unit e)
  with assms show ?thesis by simp
next
  case (dup d)
  with assms show ?thesis by simp
next
  case (ok d vs ws)
  let ?n2 = "ensure_node_in_network (ensure_node_in_network net (fst seg)) (snd seg)"
  have wf2: "wf_network ?n2" using assms(1) by (simp add: wf_ensure)
  have "mset (segments_of (AList.update (fst seg) (vs @ [(d, snd seg)]) (outgoing ?n2)))
      = mset (segments_of (outgoing ?n2)) + {#(fst seg, snd seg)#}"
    using wf2 ok(2) by (intro mset_segments_of_update) (simp_all add: wf_network_def keys_def)
  moreover have "segments_of (outgoing ?n2) = convert_to_segments net"
    using segments_ensure by (simp add: convert_to_segments_def)
  ultimately show ?thesis
    using ok(4) assms(2) by (auto simp: convert_to_segments_def)
qed

lemma generate_roads_segments:
  "wf_network net \<Longrightarrow> generate_roads net segs = (None, net')
   \<Longrightarrow> mset (convert_to_segments net') = mset (convert_to_segments net) + mset segs"
proof (induction segs arbitrary: net)
  case Nil
  then show ?case by simp
next
  case (Cons seg segs)
  obtain r n1 where a: "add_segment net seg = (r, n1)" by (cases "add_segment net seg")
  with Cons.prems(2) have r: "r = None" and g: "generate_roads n1 segs = (None, net')"
    by (cases r; simp)+
  have w1: "wf_network n1" using wf_add_segment[OF Cons.prems(1), of seg] a by simp
  from add_segment_ok_segments[OF Cons.prems(1)] a r
  have "mset (convert_to_segments n1) = mset (convert_to_segments net) + {#seg#}" by simp
  with Cons.IH[OF w1 g] show ?case by simp
qed

lemma convert_generate_gates [simp]:
  "convert_to_segments (generate_gates net) = convert_to_segments net"
  by (simp add: convert_to_segments_def generate_gates_def)

declare get_unit_vector_eq [code]

lemma example_accepted:
  "CustomRoadNetwork_init example_segments True =
     Inr \<lparr>outgoing = [((0, 0), [((0, 1), (0, 1))]), ((0, 1), [((1, 0), (1, 1))]),
                       ((1, 1), [((0, 1), (1, 2))]), ((1, 2), [])],
          incoming = [((0, 0), []), ((0, 1), [(0, 0)]), ((1, 1), [(0, 1)]), ((1, 2), [(1, 1)])],
          entry_gates = [(0, 0)], exit_gates = [(1, 2)]\<rparr>"
  by code_simp


section \<open>Properties of the simulation\<close>

subsection \<open>The closest vehicle on the outgoing roads\<close>

lemma back_cars_Cons:
  "back_cars s (r # rs) =
     (if cars (road_store s r) = [] then back_cars s rs
      else last (cars (road_store s r)) # back_cars s rs)"
  by (simp add: back_cars_def)

lemma back_cars_Nil [simp]: "back_cars s [] = []"
  by (simp add: back_cars_def)

lemma closest_outgoing_loop_acc:
  "closest_outgoing_loop s i rs (Some p) \<noteq> None"
proof (induction rs arbitrary: p)
  case Nil
  then show ?case by simp
next
  case (Cons r rs)
  obtain k d where p: "p = (k, d)" by (cases p)
  show ?case
    using Cons.IH by (simp add: p Let_def)
qed

lemma closest_outgoing_loop_None:
  "closest_outgoing_loop s i rs None = None \<longleftrightarrow> back_cars s rs = []"
proof (induction rs)
  case Nil
  then show ?case by simp
next
  case (Cons r rs)
  then show ?case
    by (simp add: back_cars_Cons Let_def closest_outgoing_loop_acc)
qed

lemma closest_outgoing_loop_Some:
  assumes "closest_outgoing_loop s i rs acc = Some (k, d)"
    and "\<And>k' d'. acc = Some (k', d') \<Longrightarrow> d' = distance_to_car s i k'"
  shows "d = distance_to_car s i k
       \<and> (k \<in> set (back_cars s rs) \<or> acc = Some (k, d))
       \<and> (\<forall>c \<in> set (back_cars s rs). d \<le> distance_to_car s i c)
       \<and> (\<forall>k' d'. acc = Some (k', d') \<longrightarrow> d \<le> d')"
  using assms
proof (induction rs arbitrary: acc)
  case Nil
  then show ?case by auto
next
  case (Cons r rs)
  show ?case
  proof (cases "cars (road_store s r) = []")
    case True
    with Cons.prems(1) have "closest_outgoing_loop s i rs acc = Some (k, d)" by simp
    from Cons.IH[OF this Cons.prems(2)] True show ?thesis
      by (auto simp: back_cars_Cons)
  next
    case False
    let ?b = "last (cars (road_store s r))"
    let ?db = "distance_to_car s i ?b"
    show ?thesis
    proof (cases acc)
      case None
      with False Cons.prems(1)
      have l: "closest_outgoing_loop s i rs (Some (?b, ?db)) = Some (k, d)"
        by (simp add: Let_def)
      have "d = distance_to_car s i k
       \<and> (k \<in> set (back_cars s rs) \<or> Some (?b, ?db) = Some (k, d))
       \<and> (\<forall>c \<in> set (back_cars s rs). d \<le> distance_to_car s i c)
       \<and> (\<forall>k' d'. Some (?b, ?db) = Some (k', d') \<longrightarrow> d \<le> d')"
        by (rule Cons.IH[OF l]) simp
      with False None show ?thesis
        by (auto simp: back_cars_Cons)
    next
      case (Some p)
      obtain k0 d0 where p: "p = (k0, d0)" by (cases p)
      have d0: "d0 = distance_to_car s i k0" using Cons.prems(2) Some p by simp
      show ?thesis
      proof (cases "?db < d0")
        case True
        with False Some p Cons.prems(1)
        have l: "closest_outgoing_loop s i rs (Some (?b, ?db)) = Some (k, d)"
          by (simp add: Let_def)
        have "d = distance_to_car s i k
         \<and> (k \<in> set (back_cars s rs) \<or> Some (?b, ?db) = Some (k, d))
         \<and> (\<forall>c \<in> set (back_cars s rs). d \<le> distance_to_car s i c)
         \<and> (\<forall>k' d'. Some (?b, ?db) = Some (k', d') \<longrightarrow> d \<le> d')"
          by (rule Cons.IH[OF l]) simp
        with False Some p True show ?thesis
          by (auto simp: back_cars_Cons)
      next
        case nless: False
        with False Some p Cons.prems(1)
        have l: "closest_outgoing_loop s i rs (Some (k0, d0)) = Some (k, d)"
          by (simp add: Let_def)
        have "d = distance_to_car s i k
         \<and> (k \<in> set (back_cars s rs) \<or> Some (k0, d0) = Some (k, d))
         \<and> (\<forall>c \<in> set (back_cars s rs). d \<le> distance_to_car s i c)
         \<and> (\<forall>k' d'. Some (k0, d0) = Some (k', d') \<longrightarrow> d \<le> d')"
          by (rule Cons.IH[OF l]) (simp add: d0)
        with False Some p nless show ?thesis
          by (auto simp: back_cars_Cons)
      qed
    qed
  qed
qed

lemma junction_fields:
  "position (car_store (junction d) 2) = (- 20, 0)"
  "position (car_store (junction d) 3) = (d, 0)"
  "cars (road_store (junction d) 0) = [2]"
  "cars (road_store (junction d) 2) = [3]"
  "crossing (intersection_store (junction d) 0) = (0, 0)"
  "incoming_roads (intersection_store (junction d) 0) = [0]"
  "outgoing_roads (intersection_store (junction d) 0) = [2]"
  "min_clearance (intersection_store (junction d) 0) = 6"
  by (simp_all add: junction_def)

lemma junction_distances:
  "distance_to_car (junction d) 0 2 = 20"
  "distance_to_car (junction d) 0 3 = \<bar>d\<bar>"
  by (simp_all add: distance_to_car_def junction_fields)

lemma junction_priority: "closest_incoming_car (junction d) 0 2 = 2"
  by (simp add: closest_incoming_car_def junction_fields junction_distances)

lemma junction_back_cars: "back_cars (junction d) [2] = [3]"
  by (simp add: back_cars_def junction_fields)


subsection \<open>Duplicate and reversed segments\<close>

text \<open>
  Claim C7. In a graph that satisfies the invariant of the data structure (distinct keys,
  every edge stored with the unit vector of its segment, incoming lists consistent), adding
  a directed segment that is already present, or adding its exact reverse, raises the
  duplicate-edge error of \<^verbatim>\<open>_ensure_asymmetric_road\<close>. The invariant holds of the empty
  network and is kept by every call of \<^verbatim>\<open>_add_segment\<close> (\<open>wf_empty\<close>,
  \<open>wf_add_segment\<close>, \<open>wf_generate_roads\<close>).
\<close>

theorem add_existing_or_reverse_fails:
  assumes "wf_network net" and "(s, e) \<in> set (convert_to_segments net)"
  shows "fst (add_segment net (s, e)) = Some DuplicateEdge
       \<and> fst (add_segment net (e, s)) = Some DuplicateEdge"
proof -
  from assms have "distinct (map fst (outgoing net))" "(s, e) \<in> set (segments_of (outgoing net))"
    by (simp_all add: wf_network_def keys_def convert_to_segments_def)
  then obtain es d where m: "map_of (outgoing net) s = Some es" and el: "(d, e) \<in> set es"
    using segments_present by blast
  from assms(1) m el have "get_unit_vector (s, e) = Inr d"
    unfolding wf_network_def edge_dirs_ok_def by blast
  with m el show ?thesis
    by (simp add: add_segment_present)
qed

theorem add_existing_or_reverse_fails_witness:
  "wf_network (snd (generate_roads empty_network [((0, 0), (0, 1))]))
   \<and> ((0, 0), (0, 1)) \<in> set (convert_to_segments (snd (generate_roads empty_network [((0, 0), (0, 1))])))
   \<and> fst (add_segment (snd (generate_roads empty_network [((0, 0), (0, 1))])) ((0, 0), (0, 1)))
       = Some DuplicateEdge
   \<and> fst (add_segment (snd (generate_roads empty_network [((0, 0), (0, 1))])) ((0, 1), (0, 0)))
       = Some DuplicateEdge"
proof -
  let ?net = "snd (generate_roads empty_network [((0, 0), (0, 1))])"
  have w: "wf_network ?net" by (rule wf_generate_roads[OF wf_empty])
  have m: "((0, 0), (0, 1)) \<in> set (convert_to_segments ?net)"
    unfolding generate_roads_single_edge by (simp add: convert_to_segments_def segments_of_def)
  from add_existing_or_reverse_fails[OF w m] w m show ?thesis by blast
qed

subsection \<open>State of the graph after a rejected segment\<close>

text \<open>
  Claim C10. When \<^verbatim>\<open>_add_segment\<close> raises the duplicate-edge error, the network it leaves
  behind has the same segments, the same outgoing adjacency and the same incoming adjacency
  at every node (no edge was appended), but the keys of both dictionaries are the old keys
  followed by those endpoints of the rejected segment that were not keys before, each with
  an empty adjacency list: the failed call is not atomic on the node set.
\<close>

theorem duplicate_failure_keeps_nodes:
  assumes "add_segment net (s, e) = (Some DuplicateEdge, net')"
  shows "convert_to_segments net' = convert_to_segments net
       \<and> (\<forall>n. get_or_empty (outgoing net') n = get_or_empty (outgoing net) n)
       \<and> (\<forall>n. get_or_empty (incoming net') n = get_or_empty (incoming net) n)
       \<and> keys (outgoing net') = keys (outgoing net) @ filter (\<lambda>n. n \<notin> set (keys (outgoing net))) [s, e]
       \<and> keys (incoming net') = keys (incoming net) @ filter (\<lambda>n. n \<notin> set (keys (incoming net))) [s, e]
       \<and> (\<forall>n \<in> {s, e}. map_of (outgoing net) n = None \<longrightarrow> map_of (outgoing net') n = Some [])
       \<and> (\<forall>n \<in> {s, e}. map_of (incoming net) n = None \<longrightarrow> map_of (incoming net') n = Some [])"
proof (cases rule: add_segment_cases[of "(s, e)" net])
  case (unit err)
  with assms get_unit_vector_errors[OF unit(1)] show ?thesis by auto
next
  case (dup d)
  have ne: "s \<noteq> e" using dup(1) by (rule get_unit_vector_neq)
  from dup assms have n': "net' = ensure_node_in_network (ensure_node_in_network net s) e"
    by simp
  show ?thesis
    unfolding n' using ne
    by (auto simp: keys_outgoing_ensure keys_incoming_ensure map_of_outgoing_ensure
        map_of_incoming_ensure)
next
  case (ok d vs ws)
  with assms show ?thesis by simp
qed

theorem duplicate_failure_keeps_nodes_witness:
  "add_segment example_net ((0, 0), (0, 5)) =
     (Some DuplicateEdge,
      example_net\<lparr>outgoing := outgoing example_net @ [((0, 5), [])],
                  incoming := incoming example_net @ [((0, 5), [])]\<rparr>)
   \<and> map_of (outgoing example_net) (0, 5) = None
   \<and> convert_to_segments
        (example_net\<lparr>outgoing := outgoing example_net @ [((0, 5), [])],
                     incoming := incoming example_net @ [((0, 5), [])]\<rparr>)
       = convert_to_segments example_net
   \<and> keys (outgoing
        (example_net\<lparr>outgoing := outgoing example_net @ [((0, 5), [])],
                     incoming := incoming example_net @ [((0, 5), [])]\<rparr>))
       = [(0, 0), (0, 1), (0, 5)]"
proof -
  note T = duplicate_failure_keeps_nodes[OF example_add_rejected]
  have c: "convert_to_segments
        (example_net\<lparr>outgoing := outgoing example_net @ [((0, 5), [])],
                     incoming := incoming example_net @ [((0, 5), [])]\<rparr>)
       = convert_to_segments example_net"
    by (rule conjunct1[OF T])
  have b: "map_of (outgoing example_net) (0, 5) = None"
    by (simp add: example_net_def)
  have k: "keys (outgoing
        (example_net\<lparr>outgoing := outgoing example_net @ [((0, 5), [])],
                     incoming := incoming example_net @ [((0, 5), [])]\<rparr>))
       = [(0, 0), (0, 1), (0, 5)]"
    by (simp add: example_net_def keys_def)
  from example_add_rejected b c k show ?thesis by blast
qed

subsection \<open>Gates\<close>

text \<open>
  Claim C8. After \<^verbatim>\<open>_generate_gates\<close> on a graph that satisfies the invariant of the data
  structure, a node is listed as an entry gate exactly when one segment of the graph starts
  at it and none ends at it, and as an exit gate exactly when one segment ends at it and none
  starts at it. The degrees are counted on the segments of the graph, not read from the
  dictionaries the function consults.
\<close>

theorem gates_by_degree:
  assumes "wf_network net"
  shows "(n \<in> set (entry_gates (generate_gates net))
            \<longleftrightarrow> out_degree net n = 1 \<and> in_degree net n = 0)
       \<and> (n \<in> set (exit_gates (generate_gates net))
            \<longleftrightarrow> in_degree net n = 1 \<and> out_degree net n = 0)"
proof -
  have o: "length (get_or_empty (outgoing net) n) = out_degree net n"
    using assms by (rule out_degree_wf)
  have i: "length (get_or_empty (incoming net) n) = in_degree net n"
    using assms by (rule in_degree_wf)
  have ko: "n \<in> set (keys (outgoing net))" if "out_degree net n = 1"
  proof -
    from that o have "get_or_empty (outgoing net) n \<noteq> []" by auto
    then show ?thesis by (rule get_or_empty_key)
  qed
  have ki: "n \<in> set (keys (incoming net))" if "in_degree net n = 1"
  proof -
    from that i have "get_or_empty (incoming net) n \<noteq> []" by auto
    then show ?thesis by (rule get_or_empty_key)
  qed
  have i0: "get_or_empty (incoming net) n = [] \<longleftrightarrow> in_degree net n = 0"
    using i by auto
  have o0: "get_or_empty (outgoing net) n = [] \<longleftrightarrow> out_degree net n = 0"
    using o by auto
  have e: "n \<in> set (entry_gates (generate_gates net))
            \<longleftrightarrow> out_degree net n = 1 \<and> in_degree net n = 0"
    using ko by (auto simp: generate_gates_def o i i0 o0)
  have x: "n \<in> set (exit_gates (generate_gates net))
            \<longleftrightarrow> in_degree net n = 1 \<and> out_degree net n = 0"
    using ki by (auto simp: generate_gates_def o i i0 o0)
  from e x show ?thesis by (rule conjI)
qed

theorem gates_by_degree_witness:
  "wf_network example_net
   \<and> (0, 0) \<in> set (entry_gates (generate_gates example_net))
   \<and> out_degree example_net (0, 0) = 1 \<and> in_degree example_net (0, 0) = 0
   \<and> (0, 1) \<in> set (exit_gates (generate_gates example_net))
   \<and> in_degree example_net (0, 1) = 1 \<and> out_degree example_net (0, 1) = 0"
proof -
  have w: "wf_network example_net"
    using wf_generate_roads[OF wf_empty, of "[((0, 0), (0, 1))]"]
    by (simp only: example_net_built)
  have e: "(0, 0) \<in> set (entry_gates (generate_gates example_net))"
    by (simp add: example_gates)
  have x: "(0, 1) \<in> set (exit_gates (generate_gates example_net))"
    by (simp add: example_gates)
  from gates_by_degree[OF w, of "(0, 0)"] gates_by_degree[OF w, of "(0, 1)"] w e x
  show ?thesis by blast
qed

subsection \<open>Round trip through the explicit-segment builder\<close>

text \<open>
  Claim C6. Whenever \<^verbatim>\<open>CustomRoadNetwork(segments)\<close> is constructed without an exception
  (with or without the reachability check), \<^verbatim>\<open>convert_to_segments\<close> of the result returns
  the input segments up to order: the two lists are equal as multisets, hence as sets.
\<close>

theorem build_round_trip:
  assumes "CustomRoadNetwork_init segments enforce_valid_paths = Inr net"
  shows "mset (convert_to_segments net) = mset segments
       \<and> set (convert_to_segments net) = set segments"
proof -
  obtain r n0 where g: "generate_roads empty_network segments = (r, n0)"
    by (cases "generate_roads empty_network segments")
  with assms have r: "r = None" and n: "net = generate_gates n0"
    by (auto simp: CustomRoadNetwork_init_def Let_def split: option.splits if_splits)
  from generate_roads_segments[OF wf_empty] g r
  have "mset (convert_to_segments n0) = mset (convert_to_segments empty_network) + mset segments"
    by simp
  moreover have "convert_to_segments empty_network = []"
    by (simp add: convert_to_segments_def empty_network_def segments_of_def)
  ultimately have m: "mset (convert_to_segments net) = mset segments"
    by (simp add: n)
  from m have "set (convert_to_segments net) = set segments" by (rule mset_eq_setD)
  with m show ?thesis by simp
qed

theorem build_round_trip_witness:
  "CustomRoadNetwork_init example_segments True =
     Inr \<lparr>outgoing = [((0, 0), [((0, 1), (0, 1))]), ((0, 1), [((1, 0), (1, 1))]),
                       ((1, 1), [((0, 1), (1, 2))]), ((1, 2), [])],
          incoming = [((0, 0), []), ((0, 1), [(0, 0)]), ((1, 1), [(0, 1)]), ((1, 2), [(1, 1)])],
          entry_gates = [(0, 0)], exit_gates = [(1, 2)]\<rparr>
   \<and> set (convert_to_segments
        \<lparr>outgoing = [((0, 0), [((0, 1), (0, 1))]), ((0, 1), [((1, 0), (1, 1))]),
                       ((1, 1), [((0, 1), (1, 2))]), ((1, 2), [])],
          incoming = [((0, 0), []), ((0, 1), [(0, 0)]), ((1, 1), [(0, 1)]), ((1, 2), [(1, 1)])],
          entry_gates = [(0, 0)], exit_gates = [(1, 2)]\<rparr>) = set example_segments"
  using build_round_trip[OF example_accepted] example_accepted by blast

subsection \<open>Overlap validation\<close>

text \<open>
  Claim C3. Overlapping collinear segments are not always rejected. The comparison in
  \<^verbatim>\<open>_check_adjacent_overlap\<close> reads each segment from its start node to its end node
  and sorts by the start coordinate only, so that (a) a segment drawn against the axis
  hides an overlap, and (b) a segment of another line, sorted between two overlapping
  segments, separates them. The horizontal segment from \<open>(10,0)\<close> to \<open>(0,0)\<close> covers the
  one from \<open>(2,0)\<close> to \<open>(8,0)\<close>, and the check returns no error; the segments
  \<open>(0,0)\<rightarrow>(10,0)\<close> and \<open>(5,0)\<rightarrow>(15,0)\<close> overlap and are reported when alone, but not
  when \<open>(1,5)\<rightarrow>(2,5)\<close> is among them; and the whole constructor accepts the network
  \<open>(10,0)\<rightarrow>(0,0)\<close>, \<open>(0,0)\<rightarrow>(2,0)\<close>, \<open>(2,0)\<rightarrow>(8,0)\<close>, whose first road covers the other two.
\<close>

theorem overlap_check_misses_overlaps:
  "check_adjacent_overlap [((10, 0), (0, 0)), ((2, 0), (8, 0))] ''horizontal'' = None
   \<and> check_adjacent_overlap [((0, 0), (10, 0)), ((5, 0), (15, 0))] ''horizontal'' = Some Overlap
   \<and> check_adjacent_overlap [((0, 0), (10, 0)), ((1, 5), (2, 5)), ((5, 0), (15, 0))] ''horizontal''
       = None
   \<and> CustomRoadNetwork_init [((10, 0), (0, 0)), ((0, 0), (2, 0)), ((2, 0), (8, 0))] True
       = Inr \<lparr>outgoing = [((10, 0), [((- 1, 0), (0, 0))]), ((0, 0), [((1, 0), (2, 0))]),
                          ((2, 0), [((1, 0), (8, 0))]), ((8, 0), [])],
              incoming = [((10, 0), []), ((0, 0), [(10, 0)]), ((2, 0), [(0, 0)]),
                          ((8, 0), [(2, 0)])],
              entry_gates = [(10, 0)], exit_gates = [(8, 0)]\<rparr>"
  by code_simp

subsection \<open>Admission at the clearance boundary\<close>

text \<open>
  Claim C4. Let \<open>v\<close> be the closest incoming vehicle of an intersection
  (\<^verbatim>\<open>closest_incoming_car(v)\<close> returns \<open>v\<close>), and let some outgoing road carry a
  vehicle. Then \<^verbatim>\<open>can_approach(v)\<close> is true exactly when the clearance of the
  intersection is at most the least distance from the intersection to the last vehicle of
  an outgoing road: a distance strictly below the clearance denies, the clearance itself or
  more permits. With clearance 6, the distance 5.9999 is denied and 6 is permitted.
\<close>

theorem can_approach_clearance_boundary:
  assumes "closest_incoming_car s i v = v"
    and "back_cars s (outgoing_roads (intersection_store s i)) \<noteq> []"
  shows "can_approach s i v \<longleftrightarrow>
           min_clearance (intersection_store s i)
             \<le> Min (distance_to_car s i ` set (back_cars s (outgoing_roads (intersection_store s i))))"
proof -
  let ?rs = "outgoing_roads (intersection_store s i)"
  from assms(2) have "closest_outgoing_loop s i ?rs None \<noteq> None"
    by (simp add: closest_outgoing_loop_None)
  then obtain k d where l: "closest_outgoing_loop s i ?rs None = Some (k, d)" by auto
  have c: "d = distance_to_car s i k" "k \<in> set (back_cars s ?rs)"
    "\<forall>c \<in> set (back_cars s ?rs). d \<le> distance_to_car s i c"
    using closest_outgoing_loop_Some[OF l] by auto
  then have "Min (distance_to_car s i ` set (back_cars s ?rs)) = distance_to_car s i k"
    by (intro Min_eqI) auto
  moreover have "closest_outgoing_car s i = Some k"
    by (simp add: closest_outgoing_car_def l)
  ultimately show ?thesis
    using assms(1) by (auto simp: can_approach_def)
qed

theorem can_approach_clearance_boundary_witness:
  "closest_incoming_car (junction (59999 / 10000)) 0 2 = 2
   \<and> back_cars (junction (59999 / 10000))
        (outgoing_roads (intersection_store (junction (59999 / 10000)) 0)) \<noteq> []
   \<and> \<not> can_approach (junction (59999 / 10000)) 0 2
   \<and> can_approach (junction 6) 0 2"
proof -
  have n: "\<not> can_approach (junction (59999 / 10000)) 0 2"
    using can_approach_clearance_boundary[of "junction (59999 / 10000)" 0 2]
    by (simp add: junction_priority junction_back_cars junction_distances junction_fields)
  have y: "can_approach (junction 6) 0 2"
    using can_approach_clearance_boundary[of "junction 6" 0 2]
    by (simp add: junction_priority junction_back_cars junction_distances junction_fields)
  from n y show ?thesis
    by (simp add: junction_priority junction_back_cars junction_fields)
qed

end

